theory Spec2Isabelle
  imports Complex_Main "HOL-Library.Sublist" "HOL-Library.Word"
begin

section \<open>Python strings\<close>

text \<open>
  A Python \<open>str\<close> is modelled as a HOL \<open>string\<close>: a list of characters whose code
  points lie in 0..255.  The helpers below are the \<open>str\<close> methods the source calls,
  restricted to that range.
\<close>

definition lower_char :: "char \<Rightarrow> char" where
  \<comment> \<open>\<open>str.lower\<close> on one code point below 256: A-Z and the Latin-1 capitals.\<close>
  "lower_char c =
     (let n = (of_char c :: nat)
      in if (65 \<le> n \<and> n \<le> 90) \<or> (192 \<le> n \<and> n \<le> 222 \<and> n \<noteq> 215)
         then char_of (n + 32) else c)"

definition lower :: "string \<Rightarrow> string" where
  "lower s = map lower_char s"

definition startswith :: "'a list \<Rightarrow> 'a list \<Rightarrow> bool" where
  \<comment> \<open>\<open>s.startswith(p)\<close>\<close>
  "startswith s p = (take (length p) s = p)"

fun str_contains :: "'a list \<Rightarrow> 'a list \<Rightarrow> bool" where
  \<comment> \<open>\<open>k in s\<close>: \<open>k\<close> occurs in \<open>s\<close> as a contiguous substring.\<close>
  "str_contains k [] = (k = [])"
| "str_contains k (c # cs) = (startswith (c # cs) k \<or> str_contains k cs)"

definition is_space :: "char \<Rightarrow> bool" where
  \<comment> \<open>the code points below 256 that \<open>str.strip\<close> and the regex class \<open>\s\<close> treat as whitespace\<close>
  "is_space c \<longleftrightarrow> (of_char c :: nat) \<in> {9, 10, 11, 12, 13, 28, 29, 30, 31, 32, 133, 160}"

definition lstrip :: "string \<Rightarrow> string" where
  "lstrip s = dropWhile is_space s"

definition rstrip :: "string \<Rightarrow> string" where
  "rstrip s = rev (dropWhile is_space (rev s))"

definition strip :: "string \<Rightarrow> string" where
  "strip s = rstrip (lstrip s)"

definition rstrip_char :: "char \<Rightarrow> string \<Rightarrow> string" where
  \<comment> \<open>\<open>s.rstrip(ch)\<close> for a one-character argument\<close>
  "rstrip_char ch s = rev (dropWhile (\<lambda>c. c = ch) (rev s))"


section \<open>Style-class inference (\<open>_infer_class\<close>)\<close>

definition reject_keywords :: "string list" where
  "reject_keywords =
     [''reject'', ''rejection'', ''fail'', ''error'', ''technical'', ''rts'', ''return to sender'']"

definition accept_keywords :: "string list" where
  "accept_keywords = [''accept'', ''approved'', ''success'', ''output'', ''dispatch'']"

definition main_keywords :: "string list" where
  "main_keywords =
     [''infeed'', ''volume distribution'', ''vds'', ''induct'', ''sorter'', ''cbs'', ''swedi'',
      ''scanning'', ''print & apply'', ''dimension'', ''weigh'']"

definition infer_class :: "string \<Rightarrow> string" where
  "infer_class label =
     (let L = lower label
      in if list_ex (\<lambda>k. str_contains k L) reject_keywords then ''reject''
         else if list_ex (\<lambda>k. str_contains k L) accept_keywords then ''accept''
         else if list_ex (\<lambda>k. str_contains k L) main_keywords then ''main''
         else ''sub'')"


section \<open>Errors\<close>

text \<open>
  The exceptions the modelled code raises or catches, each with its message.  All of them
  are subclasses of Python's \<open>Exception\<close>; \<open>OtherException\<close> stands for any
  other subclass raised by a library.
\<close>

datatype py_error =
    ValueError string
  | RuntimeError string
  | FileNotFoundError string
  | OtherException string


section \<open>Bytes, UTF-8 and Base64\<close>

text \<open>
  \<open>bytes\<close> values are lists of octets.  Where the encoded text may hold any Unicode
  character, a \<open>str\<close> is the list of its code points (\<open>pystr\<close>).  \<open>utf8_encode\<close> is
  \<open>str.encode("utf-8")\<close>: it raises \<open>UnicodeEncodeError\<close>, a subclass of
  \<open>ValueError\<close>, on a surrogate code point.  \<open>b64encode_with\<close> is the encoder behind
  \<open>base64.b64encode\<close> and \<open>base64.urlsafe_b64encode\<close>, which differ in the last two
  letters of the alphabet.  \<open>utf8_decode\<close> and \<open>b64decode_with\<close> are the reference
  decoders used to state round trips.
\<close>

type_synonym bytes = "8 word list"

type_synonym pystr = "nat list"

definition is_scalar :: "nat \<Rightarrow> bool" where
  "is_scalar c \<longleftrightarrow> c < 0x110000 \<and> \<not> (0xD800 \<le> c \<and> c \<le> 0xDFFF)"

definition utf8_code_point :: "nat \<Rightarrow> nat list option" where
  "utf8_code_point c =
     (if c < 0x80 then Some [c]
      else if c < 0x800 then Some [0xC0 + c div 64, 0x80 + c mod 64]
      else if 0xD800 \<le> c \<and> c \<le> 0xDFFF then None
      else if c < 0x10000 then Some [0xE0 + c div 4096, 0x80 + c div 64 mod 64, 0x80 + c mod 64]
      else if c < 0x110000
        then Some [0xF0 + c div 262144, 0x80 + c div 4096 mod 64, 0x80 + c div 64 mod 64,
                   0x80 + c mod 64]
      else None)"

fun utf8_encode :: "pystr \<Rightarrow> py_error + bytes" where
  "utf8_encode [] = Inr []"
| "utf8_encode (c # cs) =
     (case utf8_code_point c of
        None \<Rightarrow> Inl (ValueError ''surrogates not allowed'')
      | Some bs \<Rightarrow>
          (case utf8_encode cs of
             Inl e \<Rightarrow> Inl e
           | Inr rest \<Rightarrow> Inr (map of_nat bs @ rest)))"

fun utf8_decode :: "bytes \<Rightarrow> pystr option" where
  "utf8_decode [] = Some []"
| "utf8_decode (b0 # bs) =
     (if unat b0 < 0x80 then map_option (\<lambda>cs. unat b0 # cs) (utf8_decode bs)
      else if unat b0 < 0xE0 then
        (case bs of
           b1 # r \<Rightarrow>
             map_option (\<lambda>cs. ((unat b0 - 0xC0) * 64 + (unat b1 - 0x80)) # cs) (utf8_decode r)
         | _ \<Rightarrow> None)
      else if unat b0 < 0xF0 then
        (case bs of
           b1 # b2 # r \<Rightarrow>
             map_option
               (\<lambda>cs. ((unat b0 - 0xE0) * 4096 + (unat b1 - 0x80) * 64 + (unat b2 - 0x80)) # cs)
               (utf8_decode r)
         | _ \<Rightarrow> None)
      else
        (case bs of
           b1 # b2 # b3 # r \<Rightarrow>
             map_option
               (\<lambda>cs. ((unat b0 - 0xF0) * 262144 + (unat b1 - 0x80) * 4096
                        + (unat b2 - 0x80) * 64 + (unat b3 - 0x80)) # cs)
               (utf8_decode r)
         | _ \<Rightarrow> None))"

definition b64_standard :: string where
  "b64_standard = ''ABCDEFGHIJKLMNOPQRSTUVWXYZabcdefghijklmnopqrstuvwxyz0123456789+/''"

definition b64_urlsafe :: string where
  "b64_urlsafe = ''ABCDEFGHIJKLMNOPQRSTUVWXYZabcdefghijklmnopqrstuvwxyz0123456789-_''"

definition sextet1 :: "8 word \<Rightarrow> nat" where
  "sextet1 a = unat a div 4"

definition sextet2 :: "8 word \<Rightarrow> 8 word \<Rightarrow> nat" where
  "sextet2 a b = unat a mod 4 * 16 + unat b div 16"

definition sextet3 :: "8 word \<Rightarrow> 8 word \<Rightarrow> nat" where
  "sextet3 b c = unat b mod 16 * 4 + unat c div 64"

definition sextet4 :: "8 word \<Rightarrow> nat" where
  "sextet4 c = unat c mod 64"

fun b64encode_with :: "string \<Rightarrow> bytes \<Rightarrow> string" where
  "b64encode_with al [] = []"
| "b64encode_with al [a] = [al ! sextet1 a, al ! sextet2 a 0, CHR ''='', CHR ''='']"
| "b64encode_with al [a, b] =
     [al ! sextet1 a, al ! sextet2 a b, al ! sextet3 b 0, CHR ''='']"
| "b64encode_with al (a # b # c # rest) =
     [al ! sextet1 a, al ! sextet2 a b, al ! sextet3 b c, al ! sextet4 c]
     @ b64encode_with al rest"








definition b64encode :: "bytes \<Rightarrow> string" where
  "b64encode bs = b64encode_with b64_standard bs"

definition urlsafe_b64encode :: "bytes \<Rightarrow> string" where
  "urlsafe_b64encode bs = b64encode_with b64_urlsafe bs"


definition encode_utf8 :: "string \<Rightarrow> py_error + bytes" where
  \<comment> \<open>\<open>s.encode("utf-8")\<close> for a string of code points below 256\<close>
  "encode_utf8 s = utf8_encode (map of_char s)"

section \<open>Document composer (\<open>merge_docx_files_with_page_breaks\<close>)\<close>

text \<open>
  A document is the sequence of its body blocks.  A paragraph is a list of runs, a run a
  list of text pieces and breaks.  A buffer of the list handed to the composer holds a
  saved document; a missing fragment is \<open>None\<close>.
\<close>

datatype break_type = PAGE | LINE | COLUMN

datatype run_content = Text string | Break break_type

type_synonym run = "run_content list"

datatype block = Paragraph "run list" | Table string

type_synonym document = "block list"

definition add_page_break :: "document \<Rightarrow> document" where
  \<comment> \<open>\<open>_add_page_break\<close>: \<open>p = doc.add_paragraph(); r = p.add_run(); r.add_break(WD_BREAK.PAGE)\<close>\<close>
  "add_page_break doc = doc @ [Paragraph [[Break PAGE]]]"

definition composer_append :: "document \<Rightarrow> document \<Rightarrow> document" where
  \<comment> \<open>\<open>composer.append(doc_to_append)\<close>: the blocks of the appended document follow the base's\<close>
  "composer_append base d = base @ d"

fun append_loop :: "document \<Rightarrow> document option list \<Rightarrow> document" where
  \<comment> \<open>the \<open>for buf in buffers_list[1:]\<close> loop, on the composer's document\<close>
  "append_loop doc [] = doc"
| "append_loop doc (None # bufs) = append_loop doc bufs"
| "append_loop doc (Some d # bufs) = append_loop (composer_append (add_page_break doc) d) bufs"

definition no_base_message :: string where
  "no_base_message = ''At least one valid document buffer is required as base document.''"

fun merge_docx_files_with_page_breaks :: "document option list \<Rightarrow> py_error + document" where
  "merge_docx_files_with_page_breaks [] = Inl (ValueError no_base_message)"
| "merge_docx_files_with_page_breaks (None # rest) = Inl (ValueError no_base_message)"
| "merge_docx_files_with_page_breaks (Some base # rest) = Inr (append_loop base rest)"

definition run_page_breaks :: "run \<Rightarrow> nat" where
  "run_page_breaks r = length (filter (\<lambda>c. c = Break PAGE) r)"

fun block_page_breaks :: "block \<Rightarrow> nat" where
  "block_page_breaks (Paragraph rs) = sum_list (map run_page_breaks rs)"
| "block_page_breaks (Table t) = 0"

definition page_breaks :: "document \<Rightarrow> nat" where
  \<comment> \<open>the number of page breaks in a document\<close>
  "page_breaks doc = sum_list (map block_page_breaks doc)"

section \<open>Diagram renderer (\<open>mermaid_to_png_best_effort\<close>)\<close>

text \<open>
  The renderer talks to the outside through library calls only.  They are the fields of
  \<open>render_env\<close>: the three import flags, the \<open>KROKI_URL\<close> environment variable, the
  HTTP client (\<open>requests.post\<close>, \<open>requests.get\<close>), the rasterizer
  (\<open>cairosvg.svg2png\<close>), \<open>zlib.compress\<close>, and the headless browser, which is given
  the diagram text and answers with a screenshot or with the exception raised anywhere
  in the browser block.  A library call either raises (\<open>Inl\<close>) or returns (\<open>Inr\<close>).
  Every function returns its value together with the external calls it made, in order.
\<close>

record response =
  status_code :: nat
  content :: bytes

definition ok :: "response \<Rightarrow> bool" where
  \<comment> \<open>\<open>r.ok\<close> of the HTTP library: true when the status code is below 400\<close>
  "ok r = (status_code r < 400)"

datatype http_request =
    POST string bytes \<comment> \<open>url, body; sent with \<open>Content-Type: text/plain\<close>\<close>
  | GET string string \<comment> \<open>url, \<open>Accept\<close> header\<close>

datatype event = Http http_request | Rasterize bytes | Browser string

type_synonym 'a traced = "'a \<times> event list"

record render_env =
  HAS_REQUESTS :: bool
  HAS_CAIROSVG :: bool
  HAS_SELENIUM :: bool
  KROKI_URL :: "string option"
  requests :: "http_request \<Rightarrow> py_error + response"
  svg2png :: "bytes \<Rightarrow> py_error + bytes"
  zlib_compress :: "bytes \<Rightarrow> bytes"
  chrome :: "string \<Rightarrow> py_error + bytes"

definition kroki_url :: "render_env \<Rightarrow> string" where
  "kroki_url env =
     (let url = strip (case KROKI_URL env of None \<Rightarrow> [] | Some u \<Rightarrow> u)
      in if url \<noteq> [] then url else ''https://kroki.io'')"

definition deflate_b64_urlsafe :: "render_env \<Rightarrow> string \<Rightarrow> py_error + string" where
  \<comment> \<open>\<open>_deflate_b64_urlsafe\<close>\<close>
  "deflate_b64_urlsafe env s =
     (case encode_utf8 s of
        Inl e \<Rightarrow> Inl e
      | Inr raw \<Rightarrow> Inr (urlsafe_b64encode (zlib_compress env raw)))"

definition svg_bytes_to_png :: "render_env \<Rightarrow> bytes \<Rightarrow> bytes option traced" where
  \<comment> \<open>\<open>_svg_bytes_to_png\<close>\<close>
  "svg_bytes_to_png env svg_bytes =
     (if svg_bytes = [] then (None, [])
      else if HAS_CAIROSVG env then
        (case svg2png env svg_bytes of
           Inr png \<Rightarrow> (Some png, [Rasterize svg_bytes])
         | Inl e \<Rightarrow> (None, [Rasterize svg_bytes]))
      else (None, []))"

definition kroki_request :: "render_env \<Rightarrow> string \<Rightarrow> string \<Rightarrow> py_error + http_request" where
  \<comment> \<open>the arguments of \<open>requests.post\<close> for the Kroki endpoint \<open>path\<close>\<close>
  "kroki_request env mermaid_code path =
     (case encode_utf8 mermaid_code of
        Inl e \<Rightarrow> Inl e
      | Inr body \<Rightarrow> Inr (POST (rstrip_char CHR ''/'' (kroki_url env) @ path) body))"

definition ink_request ::
  "render_env \<Rightarrow> string \<Rightarrow> string \<Rightarrow> string \<Rightarrow> py_error + http_request" where
  \<comment> \<open>the arguments of \<open>requests.get\<close> for mermaid.ink\<close>
  "ink_request env mermaid_code base accept =
     (case deflate_b64_urlsafe env mermaid_code of
        Inl e \<Rightarrow> Inl e
      | Inr code_b64 \<Rightarrow> Inr (GET (base @ code_b64) accept))"

definition send :: "render_env \<Rightarrow> py_error + http_request \<Rightarrow> (py_error + response) traced" where
  \<comment> \<open>the request is sent unless building its arguments raised\<close>
  "send env req =
     (case req of
        Inl e \<Rightarrow> (Inl e, [])
      | Inr q \<Rightarrow> (requests env q, [Http q]))"

definition except_pass :: "(py_error + 'a option) traced \<Rightarrow> 'a option traced" where
  \<comment> \<open>\<open>try: ... except Exception: pass\<close>: an exception ends the block without a return value\<close>
  "except_pass m =
     (case m of
        (Inl e, t) \<Rightarrow> (None, t)
      | (Inr v, t) \<Rightarrow> (v, t))"

definition png_attempt :: "render_env \<Rightarrow> py_error + http_request \<Rightarrow> bytes option traced" where
  \<comment> \<open>a \<open>try\<close> block that returns \<open>r.content\<close> \<open>if r.ok and r.content\<close>\<close>
  "png_attempt env req =
     except_pass
       (case send env req of
          (Inl e, t) \<Rightarrow> (Inl e, t)
        | (Inr r, t) \<Rightarrow> (Inr (if ok r \<and> content r \<noteq> [] then Some (content r) else None), t))"

definition svg_attempt :: "render_env \<Rightarrow> py_error + http_request \<Rightarrow> bytes option traced" where
  \<comment> \<open>a \<open>try\<close> block that rasterizes \<open>r.content\<close> and returns the result \<open>if png\<close>\<close>
  "svg_attempt env req =
     except_pass
       (case send env req of
          (Inl e, t) \<Rightarrow> (Inl e, t)
        | (Inr r, t) \<Rightarrow>
            (if ok r \<and> content r \<noteq> [] then
               (case svg_bytes_to_png env (content r) of
                  (Some png, t') \<Rightarrow> (Inr (if png \<noteq> [] then Some png else None), t @ t')
                | (None, t') \<Rightarrow> (Inr None, t @ t'))
             else (Inr None, t)))"

definition otherwise :: "'a option traced \<Rightarrow> 'a option traced \<Rightarrow> 'a option traced" where
  \<comment> \<open>a block that returned ends the function; otherwise the next block runs\<close>
  "otherwise m k =
     (case m of
        (Some v, t) \<Rightarrow> (Some v, t)
      | (None, t) \<Rightarrow> (case k of (r, t') \<Rightarrow> (r, t @ t')))"

definition mermaid_to_png_via_kroki :: "render_env \<Rightarrow> string \<Rightarrow> bytes option traced" where
  "mermaid_to_png_via_kroki env mermaid_code =
     (if \<not> HAS_REQUESTS env \<or> mermaid_code = [] then (None, [])
      else
        otherwise (png_attempt env (kroki_request env mermaid_code ''/mermaid/png''))
       (otherwise (svg_attempt env (kroki_request env mermaid_code ''/mermaid/svg''))
       (otherwise (png_attempt env
                     (ink_request env mermaid_code ''https://mermaid.ink/img/'' ''image/png''))
                  (svg_attempt env
                     (ink_request env mermaid_code ''https://mermaid.ink/svg/''
                        ''image/svg+xml'')))))"

definition mermaid_to_png_via_chrome :: "render_env \<Rightarrow> string \<Rightarrow> bytes option traced" where
  "mermaid_to_png_via_chrome env mermaid_code =
     (if \<not> (HAS_SELENIUM env \<and> mermaid_code \<noteq> []) then (None, [])
      else
        (case chrome env mermaid_code of
           Inr png \<Rightarrow> (Some png, [Browser mermaid_code])
         | Inl e \<Rightarrow> (None, [Browser mermaid_code])))"

fun truthy :: "bytes option \<Rightarrow> bool" where
  \<comment> \<open>\<open>if png:\<close> on an \<open>Optional[bytes]\<close>\<close>
  "truthy None = False"
| "truthy (Some b) = (b \<noteq> [])"

definition mermaid_to_png_best_effort :: "render_env \<Rightarrow> string \<Rightarrow> bytes option traced" where
  "mermaid_to_png_best_effort env code =
     (case mermaid_to_png_via_kroki env code of
        (png, t) \<Rightarrow>
          if truthy png then (png, t)
          else (case mermaid_to_png_via_chrome env code of (png', t') \<Rightarrow> (png', t @ t')))"





definition kroki_env :: render_env where
  "kroki_env =
     \<lparr> HAS_REQUESTS = True, HAS_CAIROSVG = True, HAS_SELENIUM = True,
       KROKI_URL = Some ''http://kroki.local/ '',
       requests = (\<lambda>q. Inr \<lparr> status_code = 200, content = [137, 80, 78, 71] \<rparr>),
       svg2png = (\<lambda>svg. Inr [1]),
       zlib_compress = (\<lambda>raw. raw),
       chrome = (\<lambda>code. Inr [2]) \<rparr>"


section \<open>Viewer link (\<open>_DrawIO.xml_to_viewer_url\<close>)\<close>

text \<open>
  \<open>zlib.compressobj(level, wbits)\<close> followed by \<open>compress(raw) + flush()\<close> is the
  library's; it is the parameter \<open>deflate\<close>, a function of the level, the window bits
  and the data.  A negative \<open>wbits\<close> asks for a raw deflate stream, without the zlib
  header and checksum.
\<close>

definition viewer_prefix :: string where
  "viewer_prefix = ''https://viewer.diagrams.net/?lightbox=1&nav=1&layers=1&noSaveBtn=1#R''"

definition xml_to_viewer_url ::
  "(int \<Rightarrow> int \<Rightarrow> bytes \<Rightarrow> bytes) \<Rightarrow> pystr \<Rightarrow> py_error + string" where
  "xml_to_viewer_url deflate xml_str =
     (case utf8_encode xml_str of
        Inl e \<Rightarrow> Inl e
      | Inr raw \<Rightarrow>
          (let deflated = deflate 9 (- 15) raw;
               b64 = b64encode deflated
           in Inr (viewer_prefix @ b64)))"



text \<open>
  A raw deflate codec that writes the data as one stored block (RFC 1951, section 3.2.4):
  the header octet 1 (final block, no compression), the length and its complement as
  16-bit little-endian numbers, then the data.  It stands in for the library where a
  concrete compressor is needed.
\<close>

definition stored_deflate :: "int \<Rightarrow> int \<Rightarrow> bytes \<Rightarrow> bytes" where
  "stored_deflate level wbits raw =
     (let n = length raw
      in [1, of_nat (n mod 256), of_nat (n div 256 mod 256),
          of_nat (255 - n mod 256), of_nat (255 - n div 256 mod 256)] @ raw)"



section \<open>Prose generators (\<open>generate_cover_letters_concurrent\<close>, \<open>generate_exec_summaries_concurrent\<close>)\<close>

text \<open>
  The outside of the prose generators: whether the module-level client exists, the two
  system prompts (long constants of the source), the chat-completion service, the PDF
  reader and today's date.  The service may answer two identical requests differently,
  so its answer depends on which of the two submitted calls asks (0 or 1); an answer is an
  exception, or the message content, which may be \<open>None\<close>.  The sampling parameters
  of a request (temperature, nucleus threshold) are constants of the source and left out.
\<close>

record chat_request =
  model :: string
  system_content :: string
  user_content :: string
  max_tokens :: nat





fun join :: "string \<Rightarrow> string list \<Rightarrow> string" where
  \<comment> \<open>\<open>sep.join(parts)\<close>\<close>
  "join sep [] = []"
| "join sep [x] = x"
| "join sep (x # y # rest) = x @ sep @ join sep (y # rest)"















section \<open>Diagram synthesis (\<open>ask_llm_mermaid\<close> and its caller in step 4)\<close>










datatype ui_message = UploadPdfFirst | InvalidMermaid | FlowchartGenerated

record step4_result =
  shown :: ui_message
  mermaid_code :: "string option"
  llm_calls :: "chat_request list"




section \<open>Editor bridge: refresh and its cooldown (\<open>_auto_refresh_drawio_preview\<close>, step 4)\<close>

text \<open>
  \<open>flow_state\<close> is \<open>_FlowAppState\<close>; the driver is an opaque session handle.  The outside
  of the bridge: the two reads of \<open>driver.current_url\<close>, \<open>_DrawIO.export_xml\<close> for each
  attempt (it returns a file path or raises), the file system, the compressor, and the
  clock, read when the page is rendered and again after a successful export.  Times are
  seconds, as real numbers.  Messages shown to the user are left out.
\<close>

record flow_state =
  driver :: "nat option"
  mode :: "string option"
  download_dir :: string
  viewer_url :: "string option"
  last_refresh_ts :: "real option"

record editor_env =
  current_url :: "nat \<Rightarrow> py_error + string"
  export_xml :: "nat \<Rightarrow> py_error + string option"
  path_exists :: "string \<Rightarrow> bool"
  read_text :: "string \<Rightarrow> py_error + pystr"
  zlib_deflate :: "int \<Rightarrow> int \<Rightarrow> bytes \<Rightarrow> bytes"
  time_at_render :: real
  time_after_export :: real

datatype editor_event = ReadUrl nat | ExportXml nat

fun export_with_retry :: "editor_env \<Rightarrow> nat \<Rightarrow> nat \<Rightarrow> string option \<times> editor_event list" where
  \<comment> \<open>\<open>for attempt in range(max_retries)\<close>: the first attempt that returns ends the loop;
     one that raises is followed by the next\<close>
  "export_with_retry env attempt 0 = (None, [])"
| "export_with_retry env attempt (Suc remaining) =
     (case export_xml env attempt of
        Inr xml_file \<Rightarrow> (xml_file, [ExportXml attempt])
      | Inl e \<Rightarrow>
          (case export_with_retry env (Suc attempt) remaining of
             (xml_file, evs) \<Rightarrow> (xml_file, ExportXml attempt # evs)))"

definition export_and_link :: "editor_env \<Rightarrow> (py_error + string) \<times> editor_event list" where
  \<comment> \<open>steps 3 to 5 of the \<open>try\<close> block: export with retry, read and check the file, build the link\<close>
  "export_and_link env =
     (case export_with_retry env 0 2 of
        (xml_file, evs) \<Rightarrow>
          (case xml_file of
             None \<Rightarrow> (Inl (RuntimeError ''XML export failed after 2 attempts''), evs)
           | Some path \<Rightarrow>
               if path = [] then (Inl (RuntimeError ''XML export failed after 2 attempts''), evs)
               else if \<not> path_exists env path
                 then (Inl (FileNotFoundError (''Exported XML file not found: '' @ path)), evs)
               else
                 (case read_text env path of
                    Inl e \<Rightarrow> (Inl e, evs)
                  | Inr xml_text \<Rightarrow>
                      if xml_text = [] \<or> length xml_text < 50
                      then (Inl (ValueError ''Exported XML is empty or too small''), evs)
                      else (xml_to_viewer_url (zlib_deflate env) xml_text, evs))))"

definition session_closed_message :: "string \<Rightarrow> bool" where
  "session_closed_message error_msg =
     (str_contains ''no such window'' (lower error_msg)
      \<or> str_contains ''invalid session'' (lower error_msg))"

fun handle_refresh_error :: "flow_state \<Rightarrow> py_error \<Rightarrow> flow_state" where
  \<comment> \<open>the \<open>except\<close> clauses of the outer \<open>try\<close>; each ends in \<open>return False\<close>\<close>
  "handle_refresh_error fs (FileNotFoundError m) = fs"
| "handle_refresh_error fs (ValueError m) = fs"
| "handle_refresh_error fs (RuntimeError m) = fs"
| "handle_refresh_error fs (OtherException m) =
     (if session_closed_message m then fs\<lparr> driver := None, mode := None \<rparr> else fs)"

definition auto_refresh_drawio_preview ::
  "editor_env \<Rightarrow> flow_state \<Rightarrow> (bool \<times> flow_state) \<times> editor_event list" where
  "auto_refresh_drawio_preview env fs =
     (if mode fs \<noteq> Some ''drawio'' \<or> driver fs = None then ((False, fs), [])
      else
        (case current_url env 0 of
           Inl e \<Rightarrow> ((False, fs\<lparr> driver := None, mode := None \<rparr>), [ReadUrl 0])
         | Inr ping \<Rightarrow>
             (case current_url env 1 of
                Inl e \<Rightarrow> ((False, handle_refresh_error fs e), [ReadUrl 0, ReadUrl 1])
              | Inr url \<Rightarrow>
                  if \<not> str_contains ''diagrams.net'' url \<and> \<not> str_contains ''draw.io'' url
                  then ((False, fs), [ReadUrl 0, ReadUrl 1])
                  else
                    (case export_and_link env of
                       (Inl e, evs) \<Rightarrow>
                         ((False, handle_refresh_error fs e), [ReadUrl 0, ReadUrl 1] @ evs)
                     | (Inr link, evs) \<Rightarrow>
                         ((True, fs\<lparr> viewer_url := Some link,
                                     last_refresh_ts := Some (time_after_export env) \<rparr>),
                          [ReadUrl 0, ReadUrl 1] @ evs)))))"

definition can_refresh :: "editor_env \<Rightarrow> flow_state \<Rightarrow> bool" where
  \<comment> \<open>the debounce flag computed before the refresh button is drawn\<close>
  "can_refresh env fs =
     (case last_refresh_ts fs of
        None \<Rightarrow> True
      | Some ts \<Rightarrow>
          if ts \<noteq> 0 then (let elapsed = time_at_render env - ts in \<not> elapsed < 3)
          else True)"

definition refresh_button ::
  "editor_env \<Rightarrow> flow_state \<Rightarrow> bool \<Rightarrow> (bool \<times> bool \<times> flow_state) \<times> editor_event list" where
  \<comment> \<open>the refresh block of step 4: the flag, then the button's handler when it was clicked.
     The result is the flag, whether the refresh succeeded, and the new state.\<close>
  "refresh_button env fs clicked =
     (let flag = can_refresh env fs
      in if clicked then
           (case auto_refresh_drawio_preview env fs of
              ((success, fs'), evs) \<Rightarrow> ((flag, success, fs'), evs))
         else ((flag, False, fs), []))"

text \<open>
  An editor session that is alive and exports at the first attempt; the page is rendered
  one second after the previous refresh.
\<close>

definition live_editor :: editor_env where
  "live_editor =
     \<lparr> current_url = (\<lambda>n. Inr ''https://app.diagrams.net/''),
       export_xml = (\<lambda>attempt. Inr (Some ''/tmp/flowchart_x/diagram.drawio'')),
       path_exists = (\<lambda>path. True),
       read_text = (\<lambda>path. Inr (map of_char
          ''<mxfile><diagram><mxGraphModel><root/></mxGraphModel></diagram></mxfile>'')),
       zlib_deflate = stored_deflate,
       time_at_render = 101,
       time_after_export = 102 \<rparr>"

definition refreshed_state :: flow_state where
  "refreshed_state =
     \<lparr> driver = Some 1, mode = Some ''drawio'', download_dir = ''/tmp/flowchart_x'',
       viewer_url = Some (viewer_prefix @ ''AQAA//8=''), last_refresh_ts = Some 100 \<rparr>"

section \<open>Image normalization (\<open>_auto_crop_png_whitespace\<close>)\<close>

text \<open>
  A decoded image has a mode, a size and a pixel at every position \<open>(x, y)\<close> inside that
  size.  Only the modes \<open>RGB\<close> and \<open>RGBA\<close> are told apart by the function; for any other
  mode the pixels recorded here are the ones \<open>im.convert("RGBA")\<close> gives, the conversion
  being the imaging library's.  The alpha of an \<open>RGB\<close> pixel is not used.  Single-band
  images (the alpha channel, the grey image, masks) are functions from positions to
  0..255.  The bytes handed to the function either decode to an image or make
  \<open>Image.open\<close> raise.  The pixel arithmetic is the imaging library's: the luma transform
  of \<open>convert("L")\<close> and the blend of \<open>paste\<close> with a mask.
\<close>

datatype img_mode = RGB | RGBA | OtherMode

datatype pixel = Pixel (red: "8 word") (green: "8 word") (blue: "8 word") (alpha: "8 word")

record image =
  img_mode :: img_mode
  img_width :: nat
  img_height :: nat
  pix :: "nat \<Rightarrow> nat \<Rightarrow> pixel"

datatype png_bytes = Png image | NotPng bytes

type_synonym band = "nat \<Rightarrow> nat \<Rightarrow> nat"

definition nonzero_cols :: "band \<Rightarrow> nat \<Rightarrow> nat \<Rightarrow> nat list" where
  "nonzero_cols f w h = filter (\<lambda>x. list_ex (\<lambda>y. f x y \<noteq> 0) [0..<h]) [0..<w]"

definition nonzero_rows :: "band \<Rightarrow> nat \<Rightarrow> nat \<Rightarrow> nat list" where
  "nonzero_rows f w h = filter (\<lambda>y. list_ex (\<lambda>x. f x y \<noteq> 0) [0..<w]) [0..<h]"

definition getbbox :: "band \<Rightarrow> nat \<Rightarrow> nat \<Rightarrow> (nat \<times> nat \<times> nat \<times> nat) option" where
  \<comment> \<open>\<open>Image.getbbox\<close>: the box (x0, y0, x1, y1), right and lower edge excluded, around the non-zero pixels of a
     band of size \<open>w\<close> by \<open>h\<close>, or \<open>None\<close> when there is none\<close>
  "getbbox f w h =
     (let xs = nonzero_cols f w h; ys = nonzero_rows f w h
      in if xs = [] \<or> ys = [] then None
         else Some (hd xs, hd ys, last xs + 1, last ys + 1))"

definition luma :: "pixel \<Rightarrow> nat" where
  \<comment> \<open>\<open>ImageOps.grayscale\<close> on one pixel\<close>
  "luma p = (unat (red p) * 19595 + unat (green p) * 38470 + unat (blue p) * 7471 + 32768)
              div 65536"

definition alpha_band :: "image \<Rightarrow> band" where
  \<comment> \<open>\<open>im.getchannel("A")\<close>\<close>
  "alpha_band im = (\<lambda>x y. unat (alpha (pix im x y)))"

definition not_white_band :: "image \<Rightarrow> band" where
  \<comment> \<open>\<open>ImageOps.invert(gray.point(lambda p: 255 if p > 245 else 0))\<close>\<close>
  "not_white_band im = (\<lambda>x y. 255 - (if luma (pix im x y) > 245 then 255 else 0))"

definition crop :: "image \<Rightarrow> nat \<times> nat \<times> nat \<times> nat \<Rightarrow> image" where
  \<comment> \<open>\<open>im.crop(bbox)\<close>\<close>
  "crop im bbox =
     (case bbox of
        (x0, y0, x1, y1) \<Rightarrow>
          im\<lparr> img_width := x1 - x0, img_height := y1 - y0,
              pix := (\<lambda>x y. pix im (x + x0) (y + y0)) \<rparr>)"

definition blend8 :: "nat \<Rightarrow> nat \<Rightarrow> nat \<Rightarrow> nat" where
  \<comment> \<open>the blend of \<open>paste\<close>: \<open>in1\<close> where the mask \<open>m\<close> is 0, \<open>in2\<close> where it is 255\<close>
  "blend8 m in1 in2 =
     (let tmp = in1 * (255 - m) + in2 * m + 128
      in (tmp div 256 + tmp) div 256)"

definition flatten_on_white :: "image \<Rightarrow> image" where
  \<comment> \<open>\<open>bg = Image.new("RGB", im.size, (255, 255, 255)); bg.paste(im, mask=im.split()[-1])\<close>\<close>
  "flatten_on_white im =
     im\<lparr> img_mode := RGB,
         pix := (\<lambda>x y.
                  (let p = pix im x y; a = unat (alpha p)
                   in Pixel (of_nat (blend8 a 255 (unat (red p))))
                            (of_nat (blend8 a 255 (unat (green p))))
                            (of_nat (blend8 a 255 (unat (blue p))))
                            255)) \<rparr>"

definition auto_crop_image :: "image \<Rightarrow> image" where
  \<comment> \<open>the body of the \<open>try\<close> block, between \<open>Image.open\<close> and \<open>im.save\<close>\<close>
  "auto_crop_image im0 =
     (let im = (if img_mode im0 \<noteq> RGB \<and> img_mode im0 \<noteq> RGBA
                then im0\<lparr> img_mode := RGBA \<rparr> else im0);
          bbox = (if img_mode im = RGBA
                  then getbbox (alpha_band im) (img_width im) (img_height im) else None);
          bbox = (case bbox of
                    None \<Rightarrow> getbbox (not_white_band im) (img_width im) (img_height im)
                  | Some b \<Rightarrow> Some b);
          im = (case bbox of None \<Rightarrow> im | Some b \<Rightarrow> crop im b)
      in if img_mode im = RGBA then flatten_on_white im else im)"

fun auto_crop_png_whitespace :: "png_bytes \<Rightarrow> png_bytes" where
  "auto_crop_png_whitespace (Png im) = Png (auto_crop_image im)"
| "auto_crop_png_whitespace (NotPng png_bytes) = NotPng png_bytes"

fun png_size :: "png_bytes \<Rightarrow> (nat \<times> nat) option" where
  \<comment> \<open>the pixel dimensions of the image the bytes hold, if any\<close>
  "png_size (Png im) = Some (img_width im, img_height im)"
| "png_size (NotPng b) = None"

text \<open>
  Two images of two pixels: in mode \<open>RGBA\<close>, a black pixel that is almost
  transparent next to an opaque black pixel; in mode \<open>RGB\<close>, a white pixel next to a
  black one.
\<close>

definition faint_edge :: image where
  "faint_edge =
     \<lparr> img_mode = RGBA, img_width = 2, img_height = 1,
       pix = (\<lambda>x y. if x = 0 then Pixel 0 0 0 1 else Pixel 0 0 0 255) \<rparr>"

definition margin_dot :: image where
  "margin_dot =
     \<lparr> img_mode = RGB, img_width = 2, img_height = 1,
       pix = (\<lambda>x y. if x = 0 then Pixel 255 255 255 255 else Pixel 0 0 0 255) \<rparr>"

section \<open>Facts about the string helpers\<close>

lemma startswith_prefix: "startswith s p \<longleftrightarrow> prefix p s"
  unfolding startswith_def prefix_def
  by (metis append_eq_conv_conj append_take_drop_id)

lemma str_contains_sublist: "str_contains k s \<longleftrightarrow> sublist k s"
proof (induction s)
  case Nil
  show ?case by simp
next
  case (Cons c cs)
  show ?case
    by (simp add: Cons.IH startswith_prefix sublist_Cons_right)
qed

section \<open>Facts about the codecs\<close>












lemma unat_of_nat_byte: "x < 256 \<Longrightarrow> unat (of_nat x :: 8 word) = x"
  by (simp add: unat_of_nat)

lemma join3: "c div 4096 * 4096 + c div 64 mod 64 * 64 + c mod 64 = (c::nat)"
proof -
  define q where "q = c div 64"
  define r where "r = c mod 64"
  define a where "a = q div 64"
  define b where "b = q mod 64"
  have c: "c = q * 64 + r" unfolding q_def r_def by simp
  have q: "q = a * 64 + b" unfolding a_def b_def by simp
  have a: "c div 4096 = a" unfolding a_def q_def using div_mult2_eq [of c 64 64] by simp
  have "a * 4096 + b * 64 + r = (a * 64 + b) * 64 + r" by simp
  then have "a * 4096 + b * 64 + r = c" using c q by simp
  then show ?thesis unfolding a b_def r_def q_def .
qed

lemma join4:
  "c div 262144 * 262144 + c div 4096 mod 64 * 4096 + c div 64 mod 64 * 64 + c mod 64 = (c::nat)"
proof -
  define q where "q = c div 64"
  define r where "r = c mod 64"
  have c: "c = q * 64 + r" unfolding q_def r_def by simp
  have a: "c div 262144 = q div 4096" unfolding q_def using div_mult2_eq [of c 64 4096] by simp
  have b: "c div 4096 = q div 64" unfolding q_def using div_mult2_eq [of c 64 64] by simp
  have "q div 4096 * 4096 + q div 64 mod 64 * 64 + q mod 64 = q" by (rule join3)
  then have "(q div 4096 * 4096 + q div 64 mod 64 * 64 + q mod 64) * 64 + r = c"
    using c by simp
  then have "q div 4096 * 262144 + q div 64 mod 64 * 4096 + q mod 64 * 64 + r = c"
    by (simp add: algebra_simps)
  then show ?thesis unfolding a b unfolding q_def r_def .
qed

lemma utf8_decode_2:
  assumes "x < 32" "y < 64"
  shows "utf8_decode (of_nat (0xC0 + x) # of_nat (0x80 + y) # rest)
           = map_option (\<lambda>cs. (x * 64 + y) # cs) (utf8_decode rest)"
proof -
  have u0: "unat (of_nat (0xC0 + x) :: 8 word) = 0xC0 + x"
    using assms by (intro unat_of_nat_byte) simp
  have u1: "unat (of_nat (0x80 + y) :: 8 word) = 0x80 + y"
    using assms by (intro unat_of_nat_byte) simp
  show ?thesis
    using assms by (simp add: u0 u1 del: of_nat_add of_nat_numeral)
qed

lemma utf8_decode_3:
  assumes "x < 16" "y < 64" "z < 64"
  shows "utf8_decode (of_nat (0xE0 + x) # of_nat (0x80 + y) # of_nat (0x80 + z) # rest)
           = map_option (\<lambda>cs. (x * 4096 + y * 64 + z) # cs) (utf8_decode rest)"
proof -
  have u0: "unat (of_nat (0xE0 + x) :: 8 word) = 0xE0 + x"
    using assms by (intro unat_of_nat_byte) simp
  have u1: "unat (of_nat (0x80 + y) :: 8 word) = 0x80 + y"
    using assms by (intro unat_of_nat_byte) simp
  have u2: "unat (of_nat (0x80 + z) :: 8 word) = 0x80 + z"
    using assms by (intro unat_of_nat_byte) simp
  show ?thesis
    using assms by (simp add: u0 u1 u2 del: of_nat_add of_nat_numeral)
qed

lemma utf8_decode_4:
  assumes "w < 5" "x < 64" "y < 64" "z < 64"
  shows "utf8_decode (of_nat (0xF0 + w) # of_nat (0x80 + x) # of_nat (0x80 + y)
                       # of_nat (0x80 + z) # rest)
           = map_option (\<lambda>cs. (w * 262144 + x * 4096 + y * 64 + z) # cs) (utf8_decode rest)"
proof -
  have u0: "unat (of_nat (0xF0 + w) :: 8 word) = 0xF0 + w"
    using assms by (intro unat_of_nat_byte) simp
  have u1: "unat (of_nat (0x80 + x) :: 8 word) = 0x80 + x"
    using assms by (intro unat_of_nat_byte) simp
  have u2: "unat (of_nat (0x80 + y) :: 8 word) = 0x80 + y"
    using assms by (intro unat_of_nat_byte) simp
  have u3: "unat (of_nat (0x80 + z) :: 8 word) = 0x80 + z"
    using assms by (intro unat_of_nat_byte) simp
  show ?thesis
    using assms by (simp add: u0 u1 u2 u3 del: of_nat_add of_nat_numeral)
qed

lemma utf8_decode_code_point:
  assumes "is_scalar c" and "utf8_code_point c = Some bs"
  shows "utf8_decode (map of_nat bs @ rest) = map_option (\<lambda>cs. c # cs) (utf8_decode rest)"
proof -
  consider (a) "c < 0x80" | (b) "0x80 \<le> c" "c < 0x800" | (c) "0x800 \<le> c" "c < 0x10000"
    | (d) "0x10000 \<le> c" "c < 0x110000"
    using assms(1) unfolding is_scalar_def by linarith
  then show ?thesis
  proof cases
    case a
    with assms(2) have "bs = [c]" by (simp add: utf8_code_point_def)
    with a show ?thesis by (simp add: unat_of_nat_byte)
  next
    case b
    with assms(2) have bs: "bs = [0xC0 + c div 64, 0x80 + c mod 64]"
      by (simp add: utf8_code_point_def)
    from b have lt: "c div 64 < 32" "c mod 64 < 64" by simp_all
    have join: "c div 64 * 64 + c mod 64 = c" by simp
    show ?thesis
      unfolding bs list.map append_Cons append_Nil utf8_decode_2 [OF lt] join ..
  next
    case c
    with assms have bs: "bs = [0xE0 + c div 4096, 0x80 + c div 64 mod 64, 0x80 + c mod 64]"
      by (auto simp add: utf8_code_point_def is_scalar_def)
    from c have lt: "c div 4096 < 16" "c div 64 mod 64 < 64" "c mod 64 < 64" by simp_all
    show ?thesis
      unfolding bs list.map append_Cons append_Nil utf8_decode_3 [OF lt] join3 ..
  next
    case d
    with assms have bs: "bs = [0xF0 + c div 262144, 0x80 + c div 4096 mod 64,
        0x80 + c div 64 mod 64, 0x80 + c mod 64]"
      by (auto simp add: utf8_code_point_def is_scalar_def)
    from d have lt: "c div 262144 < 5" "c div 4096 mod 64 < 64" "c div 64 mod 64 < 64"
        "c mod 64 < 64" by simp_all
    show ?thesis
      unfolding bs list.map append_Cons append_Nil utf8_decode_4 [OF lt] join4 ..
  qed
qed

lemma utf8_code_point_scalar: "is_scalar c \<Longrightarrow> \<exists>bs. utf8_code_point c = Some bs"
  unfolding is_scalar_def utf8_code_point_def by simp

lemma utf8_roundtrip:
  "list_all is_scalar s \<Longrightarrow> \<exists>raw. utf8_encode s = Inr raw \<and> utf8_decode raw = Some s"
proof (induction s)
  case Nil
  show ?case by simp
next
  case (Cons c cs)
  then obtain raw where raw: "utf8_encode cs = Inr raw" "utf8_decode raw = Some cs" by auto
  from Cons.prems obtain bs where bs: "utf8_code_point c = Some bs"
    using utf8_code_point_scalar by auto
  from Cons.prems have sc: "is_scalar c" by simp
  have enc: "utf8_encode (c # cs) = Inr (map of_nat bs @ raw)"
    by (simp only: utf8_encode.simps bs raw(1) option.case sum.case)
  have "utf8_decode (map of_nat bs @ raw) = map_option (\<lambda>cs. c # cs) (utf8_decode raw)"
    by (rule utf8_decode_code_point [OF sc bs])
  then have dec: "utf8_decode (map of_nat bs @ raw) = Some (c # cs)"
    by (simp only: raw(2) option.map)
  from enc dec show ?case by blast
qed

section \<open>Style-class inference: results\<close>

text \<open>
  C9.  For every label, \<open>_infer_class\<close> answers \<open>reject\<close> when the lower-cased label
  contains one of the reject keywords as a substring; otherwise \<open>accept\<close> when it contains
  an accept keyword; otherwise \<open>main\<close> (the primary category) when it contains a
  core-equipment keyword; otherwise \<open>sub\<close> (the default secondary category).  The answer is
  always one of these four names; no label makes the function fail.
\<close>

theorem infer_class_cases:
  "infer_class label =
     (if (\<exists>k \<in> set reject_keywords. sublist k (lower label)) then ''reject''
      else if (\<exists>k \<in> set accept_keywords. sublist k (lower label)) then ''accept''
      else if (\<exists>k \<in> set main_keywords. sublist k (lower label)) then ''main''
      else ''sub'')
   \<and> infer_class label \<in> {''reject'', ''accept'', ''main'', ''sub''}"
  unfolding infer_class_def Let_def list_ex_iff str_contains_sublist
  by simp

theorem infer_class_cases_witness:
  "infer_class ''Reject Bin'' = ''reject''
   \<and> infer_class ''Accepted Parcels'' = ''accept''
   \<and> infer_class ''Cross-Belt SORTER'' = ''main''
   \<and> infer_class ''Manual Handling'' = ''sub''
   \<and> (\<exists>k \<in> set reject_keywords. sublist k (lower ''Reject Bin''))"
proof -
  have r: "sublist ''reject'' (lower ''Reject Bin'')"
    unfolding str_contains_sublist [symmetric] by code_simp
  have a: "infer_class ''Accepted Parcels'' = ''accept''" by code_simp
  have m: "infer_class ''Cross-Belt SORTER'' = ''main''" by code_simp
  have s: "infer_class ''Manual Handling'' = ''sub''" by code_simp
  have k: "''reject'' \<in> set reject_keywords" by (simp add: reject_keywords_def)
  from r k have ex: "\<exists>k \<in> set reject_keywords. sublist k (lower ''Reject Bin'')" by blast
  with infer_class_cases [of "''Reject Bin''"] have "infer_class ''Reject Bin'' = ''reject''"
    by simp
  with a m s ex show ?thesis by blast
qed


section \<open>Document composer: results\<close>

lemma append_loop_drop_None:
  "append_loop doc (filter (\<lambda>b. b \<noteq> None) bufs) = append_loop doc bufs"
proof (induction doc bufs rule: append_loop.induct)
  case (1 doc)
  show ?case by simp
next
  case (2 doc bufs)
  then show ?case by simp
next
  case (3 doc d bufs)
  then show ?case by simp
qed

lemma append_loop_present:
  "append_loop doc (map Some ds) = doc @ concat (map (\<lambda>d. Paragraph [[Break PAGE]] # d) ds)"
proof (induction ds arbitrary: doc)
  case Nil
  show ?case by simp
next
  case (Cons d ds)
  show ?case
    by (simp add: Cons.IH add_page_break_def composer_append_def)
qed

lemma page_breaks_append: "page_breaks (a @ b) = page_breaks a + page_breaks b"
  by (simp add: page_breaks_def)

lemma page_breaks_separated:
  "page_breaks (concat (map (\<lambda>d. Paragraph [[Break PAGE]] # d) ds))
     = sum_list (map page_breaks ds) + length ds"
  by (induction ds) (simp_all add: page_breaks_def run_page_breaks_def)

text \<open>
  C4.  Composing an empty list, or a list whose first element is \<open>None\<close>, fails with the
  \<open>ValueError\<close> and yields no document.  When the first element is present the
  composition succeeds, and the \<open>None\<close> elements after it are skipped: the result is the
  one obtained from the list with those elements removed.
\<close>

theorem merge_missing_fragments:
  "merge_docx_files_with_page_breaks [] = Inl (ValueError no_base_message)
   \<and> merge_docx_files_with_page_breaks (None # rest) = Inl (ValueError no_base_message)
   \<and> (\<exists>out. merge_docx_files_with_page_breaks (Some base # rest) = Inr out)
   \<and> merge_docx_files_with_page_breaks (Some base # rest)
       = merge_docx_files_with_page_breaks (Some base # filter (\<lambda>b. b \<noteq> None) rest)"
  using append_loop_drop_None [of base rest]
  by (simp del: not_None_eq)

theorem merge_missing_fragments_witness:
  "merge_docx_files_with_page_breaks
        [None, None, Some [Paragraph [[Text ''Summary'']]], None]
     = Inl (ValueError no_base_message)
   \<and> merge_docx_files_with_page_breaks
        [Some [Paragraph [[Text ''Cover'']]], None, Some [Paragraph [[Text ''Summary'']]], None]
     = Inr [Paragraph [[Text ''Cover'']], Paragraph [[Break PAGE]], Paragraph [[Text ''Summary'']]]"
  using merge_missing_fragments
      [of "[None, Some [Paragraph [[Text ''Summary'']]], None]" "[Paragraph [[Text ''Cover'']]]"]
  by (simp add: add_page_break_def composer_append_def)

text \<open>
  C5.  For a list of present fragments, base first, the composed document is the base
  followed, for each later fragment in the listed order, by one page-break paragraph and
  then that fragment's blocks.  The composer therefore adds exactly one page break per
  appended fragment: the result holds the page breaks of the fragments themselves plus
  \<open>n - 1\<close> for \<open>n\<close> fragments.  A single fragment is returned as it is.
\<close>

theorem merge_page_breaks:
  "merge_docx_files_with_page_breaks (map Some (base # ds))
     = Inr (base @ concat (map (\<lambda>d. Paragraph [[Break PAGE]] # d) ds))
   \<and> page_breaks (base @ concat (map (\<lambda>d. Paragraph [[Break PAGE]] # d) ds))
       = sum_list (map page_breaks (base # ds)) + (length (base # ds) - 1)
   \<and> merge_docx_files_with_page_breaks [Some base] = Inr base"
  by (simp add: append_loop_present page_breaks_append page_breaks_separated)

theorem merge_page_breaks_witness:
  "merge_docx_files_with_page_breaks
     [Some [Paragraph [[Text ''Cover'']]], Some [Paragraph [[Text ''Letter'']]],
      Some [Paragraph [[Text ''Summary'']]]]
     = Inr [Paragraph [[Text ''Cover'']], Paragraph [[Break PAGE]], Paragraph [[Text ''Letter'']],
            Paragraph [[Break PAGE]], Paragraph [[Text ''Summary'']]]
   \<and> page_breaks [Paragraph [[Text ''Cover'']], Paragraph [[Break PAGE]],
         Paragraph [[Text ''Letter'']], Paragraph [[Break PAGE]], Paragraph [[Text ''Summary'']]]
       = 2"
  using merge_page_breaks
    [of "[Paragraph [[Text ''Cover'']]]"
        "[[Paragraph [[Text ''Letter'']]], [Paragraph [[Text ''Summary'']]]]"]
  by (simp add: page_breaks_def run_page_breaks_def)

section \<open>Diagram renderer: results\<close>






lemma otherwise_Some: "m = (Some v, t) \<Longrightarrow> otherwise m k = (Some v, t)"
  unfolding otherwise_def by simp

lemma png_attempt_ok:
  "requests env q = Inr r \<Longrightarrow> ok r \<Longrightarrow> content r \<noteq> []
   \<Longrightarrow> png_attempt env (Inr q) = (Some (content r), [Http q])"
  unfolding png_attempt_def send_def except_pass_def by simp




text \<open>
  C2.  When the HTTP client is available, the diagram text is not empty and the first
  request (Kroki, raster output) is answered OK with a non-empty body, the renderer returns
  exactly that body, and that request is the only external call made: neither the vector
  variant, nor mermaid.ink, nor the browser is invoked.
\<close>

theorem first_strategy_short_circuit:
  assumes "HAS_REQUESTS env" and "code \<noteq> []"
    and "kroki_request env code ''/mermaid/png'' = Inr q"
    and "requests env q = Inr r" and "ok r" and "content r \<noteq> []"
  shows "mermaid_to_png_best_effort env code = (Some (content r), [Http q])"
proof -
  have "png_attempt env (kroki_request env code ''/mermaid/png'') = (Some (content r), [Http q])"
    using assms(3-6) by (simp add: png_attempt_ok)
  then have "mermaid_to_png_via_kroki env code = (Some (content r), [Http q])"
    using assms(1,2) by (simp add: mermaid_to_png_via_kroki_def otherwise_Some)
  then show ?thesis
    using assms(6) by (simp add: mermaid_to_png_best_effort_def)
qed

theorem first_strategy_short_circuit_witness:
  "HAS_REQUESTS kroki_env
   \<and> kroki_request kroki_env ''A-->B'' ''/mermaid/png''
       = Inr (POST ''http://kroki.local/mermaid/png'' [65, 45, 45, 62, 66])
   \<and> mermaid_to_png_best_effort kroki_env ''A-->B''
       = (Some [137, 80, 78, 71], [Http (POST ''http://kroki.local/mermaid/png'' [65, 45, 45, 62, 66])])"
proof -
  have h: "HAS_REQUESTS kroki_env" by (simp add: kroki_env_def)
  have q: "kroki_request kroki_env ''A-->B'' ''/mermaid/png''
       = Inr (POST ''http://kroki.local/mermaid/png'' [65, 45, 45, 62, 66])"
    by (simp add: kroki_request_def kroki_url_def kroki_env_def encode_utf8_def
        utf8_code_point_def strip_def lstrip_def rstrip_def rstrip_char_def is_space_def)
  have r: "requests kroki_env (POST ''http://kroki.local/mermaid/png'' [65, 45, 45, 62, 66])
       = Inr \<lparr> status_code = 200, content = [137, 80, 78, 71] \<rparr>"
    by (simp add: kroki_env_def)
  from first_strategy_short_circuit [OF h _ q r] h q show ?thesis by (simp add: ok_def)
qed

section \<open>Viewer link: results\<close>




section \<open>Prose generators: results\<close>





section \<open>Diagram synthesis: results\<close>















section \<open>Editor bridge: results\<close>

lemma of_char_scalar: "list_all is_scalar (map of_char s)"
proof -
  have "is_scalar (of_char c)" for c :: char
  proof -
    have "(of_char c :: nat) < 256" by (rule nat_of_char_less_256)
    then show ?thesis unfolding is_scalar_def by linarith
  qed
  then show ?thesis by (simp add: list_all_iff)
qed

lemma viewer_url_returns:
  "list_all is_scalar xml_str \<Longrightarrow> \<exists>link. xml_to_viewer_url d xml_str = Inr link"
  using utf8_roundtrip [of xml_str] by (auto simp add: xml_to_viewer_url_def Let_def)

text \<open>
  C7 at a concrete input.  The previous refresh was at second 100 and the page is rendered
  at second 101, so the debounce flag is \<open>False\<close>; a click on the refresh button
  nevertheless runs the export against the editor session and records a new refresh.
\<close>

theorem refresh_within_cooldown_exports:
  "can_refresh live_editor refreshed_state = False
   \<and> snd (refresh_button live_editor refreshed_state True)
       = [ReadUrl 0, ReadUrl 1, ExportXml 0]
   \<and> fst (snd (fst (refresh_button live_editor refreshed_state True))) = True
   \<and> last_refresh_ts (snd (snd (fst (refresh_button live_editor refreshed_state True))))
       = Some 102"
proof -
  let ?xml = "map of_char
    ''<mxfile><diagram><mxGraphModel><root/></mxGraphModel></diagram></mxfile>'' :: pystr"
  from viewer_url_returns [OF of_char_scalar] obtain link
    where link: "xml_to_viewer_url stored_deflate ?xml = Inr link" by blast
  have flag: "can_refresh live_editor refreshed_state = False"
    by (simp add: can_refresh_def live_editor_def refreshed_state_def)
  have ex: "export_and_link live_editor = (Inr link, [ExportXml 0])"
    using link by (simp add: export_and_link_def live_editor_def numeral_2_eq_2)
  have url: "str_contains ''diagrams.net'' ''https://app.diagrams.net/''"
    by code_simp
  have "auto_refresh_drawio_preview live_editor refreshed_state
      = ((True, refreshed_state\<lparr> viewer_url := Some link, last_refresh_ts := Some 102 \<rparr>),
         [ReadUrl 0, ReadUrl 1, ExportXml 0])"
    unfolding auto_refresh_drawio_preview_def ex
    using url by (simp add: live_editor_def refreshed_state_def)
  then show ?thesis
    using flag by (simp add: refresh_button_def)
qed

section \<open>Image normalization: results\<close>

lemma mem_nonzero_cols:
  "x \<in> set (nonzero_cols f w h) \<longleftrightarrow> x < w \<and> (\<exists>y<h. f x y \<noteq> 0)"
  by (auto simp add: nonzero_cols_def list_ex_iff)

lemma mem_nonzero_rows:
  "y \<in> set (nonzero_rows f w h) \<longleftrightarrow> y < h \<and> (\<exists>x<w. f x y \<noteq> 0)"
  by (auto simp add: nonzero_rows_def list_ex_iff)

lemma sorted_nonzero: "sorted (nonzero_cols f w h)" "sorted (nonzero_rows f w h)"
  by (simp_all add: nonzero_cols_def nonzero_rows_def sorted_wrt_filter)

lemma hd_sorted_le: "sorted xs \<Longrightarrow> x \<in> set xs \<Longrightarrow> hd xs \<le> x"
  by (cases xs) auto

lemma last_sorted_ge: "sorted xs \<Longrightarrow> x \<in> set xs \<Longrightarrow> x \<le> last xs"
  by (induction xs) (auto split: if_splits)

lemma hd_filter_zero: "0 < n \<Longrightarrow> P 0 \<Longrightarrow> hd (filter P [0..<n]) = 0"
  by (simp add: upt_conv_Cons)

lemma last_filter_top: "P n \<Longrightarrow> last (filter P [0..<Suc n]) = n"
  by simp

lemma filter_upt_nonempty: "i < n \<Longrightarrow> P i \<Longrightarrow> filter P [0..<n] \<noteq> []"
  by (auto simp add: filter_empty_conv)

text \<open>The bounding box of a band cropped to its bounding box is the whole crop.\<close>

lemma getbbox_crop:
  assumes "getbbox f w h = Some (x0, y0, x1, y1)"
  shows "getbbox (\<lambda>x y. f (x + x0) (y + y0)) (x1 - x0) (y1 - y0)
           = Some (0, 0, x1 - x0, y1 - y0)"
proof -
  let ?xs = "nonzero_cols f w h" and ?ys = "nonzero_rows f w h"
  let ?g = "\<lambda>x y. f (x + x0) (y + y0)"
  from assms have ne: "?xs \<noteq> []" "?ys \<noteq> []"
    and eq: "x0 = hd ?xs" "y0 = hd ?ys" "x1 = last ?xs + 1" "y1 = last ?ys + 1"
    by (auto simp add: getbbox_def Let_def split: if_splits)
  have in_x: "x \<in> set ?xs \<Longrightarrow> x0 \<le> x \<and> x < x1" for x
    using hd_sorted_le [OF sorted_nonzero(1)] last_sorted_ge [OF sorted_nonzero(1)] eq
    by fastforce
  have in_y: "y \<in> set ?ys \<Longrightarrow> y0 \<le> y \<and> y < y1" for y
    using hd_sorted_le [OF sorted_nonzero(2)] last_sorted_ge [OF sorted_nonzero(2)] eq
    by fastforce
  have x0_in: "x0 \<in> set ?xs" and x1_in: "x1 - 1 \<in> set ?xs"
    and y0_in: "y0 \<in> set ?ys" and y1_in: "y1 - 1 \<in> set ?ys"
    using ne eq by simp_all
  have wpos: "x0 < x1" and hpos: "y0 < y1"
    using in_x [OF x0_in] in_y [OF y0_in] by simp_all
  \<comment> \<open>every non-zero pixel of a column or row on the box lies inside the box\<close>
  have col: "\<exists>y<y1 - y0. f x (y + y0) \<noteq> 0" if "x \<in> set ?xs" for x
  proof -
    from that obtain y where y: "x < w" "y < h" "f x y \<noteq> 0"
      by (auto simp add: mem_nonzero_cols)
    then have "y \<in> set ?ys" by (auto simp add: mem_nonzero_rows)
    from in_y [OF this] have "y - y0 < y1 - y0" "(y - y0) + y0 = y" by linarith+
    with y(3) show ?thesis by metis
  qed
  have row: "\<exists>x<x1 - x0. f (x + x0) y \<noteq> 0" if "y \<in> set ?ys" for y
  proof -
    from that obtain x where x: "y < h" "x < w" "f x y \<noteq> 0"
      by (auto simp add: mem_nonzero_rows)
    then have "x \<in> set ?xs" by (auto simp add: mem_nonzero_cols)
    from in_x [OF this] have "x - x0 < x1 - x0" "(x - x0) + x0 = x" by linarith+
    with x(3) show ?thesis by metis
  qed
  let ?P = "\<lambda>x. list_ex (\<lambda>y. ?g x y \<noteq> 0) [0..<y1 - y0]"
  let ?Q = "\<lambda>y. list_ex (\<lambda>x. ?g x y \<noteq> 0) [0..<x1 - x0]"
  have P0: "?P 0" using col [OF x0_in] by (simp add: list_ex_iff Bex_def)
  have Q0: "?Q 0" using row [OF y0_in] by (simp add: list_ex_iff Bex_def)
  have Pn: "?P (x1 - x0 - 1)"
    using col [OF x1_in] wpos by (simp add: list_ex_iff Bex_def)
  have Qn: "?Q (y1 - y0 - 1)"
    using row [OF y1_in] hpos by (simp add: list_ex_iff Bex_def)
  have sx: "Suc (x1 - x0 - 1) = x1 - x0" and sy: "Suc (y1 - y0 - 1) = y1 - y0"
    using wpos hpos by simp_all
  have hx: "hd (nonzero_cols ?g (x1 - x0) (y1 - y0)) = 0"
    unfolding nonzero_cols_def using wpos P0 by (intro hd_filter_zero) simp_all
  have hy: "hd (nonzero_rows ?g (x1 - x0) (y1 - y0)) = 0"
    unfolding nonzero_rows_def using hpos Q0 by (intro hd_filter_zero) simp_all
  have lx: "last (nonzero_cols ?g (x1 - x0) (y1 - y0)) = x1 - x0 - 1"
    unfolding nonzero_cols_def using last_filter_top [of ?P "x1 - x0 - 1"] Pn
    by (simp only: sx)
  have ly: "last (nonzero_rows ?g (x1 - x0) (y1 - y0)) = y1 - y0 - 1"
    unfolding nonzero_rows_def using last_filter_top [of ?Q "y1 - y0 - 1"] Qn
    by (simp only: sy)
  have nx: "nonzero_cols ?g (x1 - x0) (y1 - y0) \<noteq> []"
    unfolding nonzero_cols_def using wpos P0 by (intro filter_upt_nonempty [of 0]) simp_all
  have ny: "nonzero_rows ?g (x1 - x0) (y1 - y0) \<noteq> []"
    unfolding nonzero_rows_def using hpos Q0 by (intro filter_upt_nonempty [of 0]) simp_all
  show ?thesis
    unfolding getbbox_def Let_def using nx ny hx hy lx ly sx sy by simp
qed

lemma auto_crop_rgb:
  "img_mode im = RGB \<Longrightarrow>
   auto_crop_image im
     = (case getbbox (not_white_band im) (img_width im) (img_height im) of
          None \<Rightarrow> im
        | Some b \<Rightarrow> crop im b)"
  by (simp add: auto_crop_image_def Let_def crop_def split: option.splits prod.splits)

lemma auto_crop_mode: "img_mode (auto_crop_image im) = RGB"
  by (cases "img_mode im")
     (simp_all add: auto_crop_image_def Let_def crop_def flatten_on_white_def
        split: option.splits prod.splits)

lemma not_white_band_crop:
  "not_white_band (crop im (x0, y0, x1, y1)) = (\<lambda>x y. not_white_band im (x + x0) (y + y0))"
  by (simp add: not_white_band_def crop_def)

lemma auto_crop_rgb_stable:
  assumes "img_mode im = RGB"
  shows "img_width (auto_crop_image (auto_crop_image im)) = img_width (auto_crop_image im)
       \<and> img_height (auto_crop_image (auto_crop_image im)) = img_height (auto_crop_image im)"
proof (cases "getbbox (not_white_band im) (img_width im) (img_height im)")
  case None
  with assms have "auto_crop_image im = im" by (simp add: auto_crop_rgb)
  then show ?thesis by simp
next
  case (Some b)
  obtain x0 y0 x1 y1 where b: "b = (x0, y0, x1, y1)" by (cases b) auto
  let ?out = "crop im (x0, y0, x1, y1)"
  from assms Some b have out: "auto_crop_image im = ?out" by (simp add: auto_crop_rgb)
  have m: "img_mode ?out = RGB" "img_width ?out = x1 - x0" "img_height ?out = y1 - y0"
    using assms by (simp_all add: crop_def)
  have "getbbox (not_white_band ?out) (x1 - x0) (y1 - y0) = Some (0, 0, x1 - x0, y1 - y0)"
    unfolding not_white_band_crop using Some b by (intro getbbox_crop) simp
  with m have "auto_crop_image ?out = crop ?out (0, 0, x1 - x0, y1 - y0)"
    by (simp add: auto_crop_rgb)
  then show ?thesis unfolding out by (simp add: crop_def)
qed

lemma upt_2: "[0..<2] = [0, Suc 0]"
  by (simp add: upt_rec)

lemma faint_edge_alpha_box: "getbbox (alpha_band faint_edge) 2 1 = Some (0, 0, 2, 1)"
  by (simp add: getbbox_def nonzero_cols_def nonzero_rows_def alpha_band_def faint_edge_def
      upt_2)

lemma faint_edge_once:
  "auto_crop_image faint_edge = flatten_on_white (crop faint_edge (0, 0, 2, 1))"
proof -
  have "img_mode faint_edge = RGBA" "img_width faint_edge = 2" "img_height faint_edge = 1"
    by (simp_all add: faint_edge_def)
  then show ?thesis
    using faint_edge_alpha_box by (simp add: auto_crop_image_def Let_def crop_def)
qed

lemma faint_edge_flat:
  "pix (auto_crop_image faint_edge) 0 0 = Pixel 254 254 254 255"
  "pix (auto_crop_image faint_edge) (Suc 0) 0 = Pixel 0 0 0 255"
  unfolding faint_edge_once
  by (simp_all add: flatten_on_white_def crop_def faint_edge_def blend8_def)

lemma faint_edge_band:
  "not_white_band (auto_crop_image faint_edge) 0 0 = 0"
  "not_white_band (auto_crop_image faint_edge) (Suc 0) 0 = 255"
  by (simp_all add: not_white_band_def faint_edge_flat luma_def)

text \<open>
  C8, as stated, fails.  The function crops to the box of the pixels that are not fully
  transparent and only then flattens onto white, so a faint border pixel survives the
  first application as an almost white pixel and is cropped by the second: the output of
  one application is 2 by 1, that of the next 1 by 1.
\<close>

theorem auto_crop_idempotent_counterexample:
  "png_size (auto_crop_png_whitespace (Png faint_edge)) = Some (2, 1)
   \<and> png_size (auto_crop_png_whitespace (auto_crop_png_whitespace (Png faint_edge)))
       = Some (1, 1)"
proof -
  define out where "out = auto_crop_image faint_edge"
  have m: "img_mode out = RGB" "img_width out = 2" "img_height out = 1"
    unfolding out_def faint_edge_once
    by (simp_all add: flatten_on_white_def crop_def faint_edge_def)
  have b: "getbbox (not_white_band out) 2 1 = Some (1, 0, 2, 1)"
    unfolding out_def
    by (simp add: getbbox_def nonzero_cols_def nonzero_rows_def faint_edge_band upt_2)
  from m b have "auto_crop_image out = crop out (1, 0, 2, 1)"
    by (simp add: auto_crop_rgb)
  then have "img_width (auto_crop_image out) = 1" "img_height (auto_crop_image out) = 1"
    by (simp_all add: crop_def)
  with m show ?thesis by (simp add: out_def)
qed

text \<open>
  C8, amended.  On an image opened in mode \<open>RGB\<close> the normalization is idempotent in
  the claimed sense: applying it to its own output leaves the pixel dimensions as they
  are.  For any input bytes, the output of two applications is stable: a third
  application leaves its dimensions unchanged.
\<close>

theorem auto_crop_dimensions_stable:
  "(img_mode im = RGB \<longrightarrow>
      png_size (auto_crop_png_whitespace (auto_crop_png_whitespace (Png im)))
        = png_size (auto_crop_png_whitespace (Png im)))
   \<and> png_size (auto_crop_png_whitespace (auto_crop_png_whitespace
                  (auto_crop_png_whitespace p)))
       = png_size (auto_crop_png_whitespace (auto_crop_png_whitespace p))"
proof -
  have rgb: "png_size (auto_crop_png_whitespace (auto_crop_png_whitespace (Png i)))
        = png_size (auto_crop_png_whitespace (Png i))" if "img_mode i = RGB" for i
    using auto_crop_rgb_stable [OF that] by simp
  have "png_size (auto_crop_png_whitespace (auto_crop_png_whitespace
                  (auto_crop_png_whitespace p)))
       = png_size (auto_crop_png_whitespace (auto_crop_png_whitespace p))"
  proof (cases p)
    case (Png i)
    with rgb [of "auto_crop_image i"] show ?thesis by (simp add: auto_crop_mode)
  next
    case (NotPng b)
    then show ?thesis by simp
  qed
  with rgb [of im] show ?thesis by blast
qed

lemma margin_dot_box: "getbbox (not_white_band margin_dot) 2 1 = Some (1, 0, 2, 1)"
  by (simp add: getbbox_def nonzero_cols_def nonzero_rows_def not_white_band_def luma_def
      margin_dot_def upt_2)

theorem auto_crop_dimensions_stable_witness:
  "img_mode margin_dot = RGB
   \<and> png_size (auto_crop_png_whitespace (Png margin_dot)) = Some (1, 1)
   \<and> png_size (auto_crop_png_whitespace (auto_crop_png_whitespace (Png margin_dot)))
       = Some (1, 1)"
proof -
  have m: "img_mode margin_dot = RGB" "img_width margin_dot = 2" "img_height margin_dot = 1"
    by (simp_all add: margin_dot_def)
  then have "auto_crop_image margin_dot = crop margin_dot (1, 0, 2, 1)"
    using margin_dot_box by (simp add: auto_crop_rgb)
  then have one: "png_size (auto_crop_png_whitespace (Png margin_dot)) = Some (1, 1)"
    by (simp add: crop_def)
  from auto_crop_dimensions_stable [of margin_dot] m(1) one show ?thesis by simp
qed

end
